theory Spec2Isabelle
  imports Main
begin

section \<open>Values, errors and panics\<close>

text \<open>
  Go's \<open>interface{}\<close> values that travel between the repository and the adapter
  (assigned ids, primary-key values, field values).
\<close>

datatype go_value = VNil | VInt int | VStr string | VBool bool

text \<open>
  Modelled from the spec: the package \<open>errors\<close> is not part of the sources at hand.
  Section 7 of the spec lists the error kinds; \<open>errors.New(message, field, kind)\<close> builds
  a value of the library's error type and \<open>Kind()\<close> reads its kind back.
\<close>

datatype error_kind = Unexpected | NotFound | ConstraintViolation | TypeMismatch | SchemaError

datatype lib_error = Error (message: string) (efield: string) (kind: error_kind)

definition NewUnexpected :: "string \<Rightarrow> lib_error" where
  "NewUnexpected msg = Error msg '''' Unexpected"

text \<open>
  A non-nil value of Go's \<open>error\<close> interface: either the library's own
  \<open>errors.Error\<close> or an error of some other dynamic type. A nil error is \<open>None\<close>.
\<close>

datatype go_error = LibError lib_error | OtherError string

text \<open>
  The value a panic carries, an \<open>interface{}\<close>: an error or any other value, nil
  included (\<open>panic(nil)\<close> is \<open>PanicOther VNil\<close>).
\<close>

datatype panic_value = PanicError go_error | PanicOther go_value

text \<open>A Go call either returns or unwinds with a panic.\<close>

datatype 'a outcome = Return 'a | Panic panic_value

text \<open>
  \<open>recover()\<close> in a deferred function, for the Go versions this module was written
  for: nil when the call returned, and also nil when it panicked with nil; otherwise the
  value the panic carries.
\<close>

fun recover :: "'a outcome \<Rightarrow> panic_value option" where
  "recover (Return _) = None"
| "recover (Panic (PanicOther VNil)) = None"
| "recover (Panic p) = Some p"

text \<open>
  Modelled from the spec: \<open>transformError\<close> is not part of the sources at hand. Section 7:
  adapter errors are returned as-is up the call stack.
\<close>

definition transformError :: "go_error option \<Rightarrow> go_error option" where
  "transformError err = err"

section \<open>Query\<close>

text \<open>
  Modelled from the spec: the packages \<open>query\<close> and \<open>where\<close> are not part of the sources
  at hand. Section 3: a Query holds a table name, an ordered filter expression, limit,
  offset, sort keys and join clauses; every builder operation returns a new Query value.
\<close>

datatype filter =
    FEq string go_value
  | FIn string "go_value list"
  | FLike string string
  | FAnd "filter list"
  | FOr "filter list"
  | FNot filter

record query =
  q_table :: string
  q_filter :: "filter list"
  q_limit :: nat
  q_offset :: nat
  q_sort :: "(string \<times> bool) list"
  q_join :: "string list"

definition From :: "string \<Rightarrow> query" where
  "From t = \<lparr>q_table = t, q_filter = [], q_limit = 0, q_offset = 0, q_sort = [], q_join = []\<rparr>"

definition Where :: "query \<Rightarrow> filter \<Rightarrow> query" where
  "Where q f = q\<lparr>q_filter := q_filter q @ [f]\<rparr>"

definition Limit :: "query \<Rightarrow> nat \<Rightarrow> query" where
  "Limit q n = q\<lparr>q_limit := n\<rparr>"

definition Offset :: "query \<Rightarrow> nat \<Rightarrow> query" where
  "Offset q n = q\<lparr>q_offset := n\<rparr>"

text \<open>
  Modelled from the spec: \<open>where.Eq\<close>, \<open>where.In\<close> and the chained \<open>AndEq\<close> /
  \<open>AndIn\<close> of the absent package \<open>where\<close>, as column-operator-value predicates and their
  conjunction.
\<close>

definition where_Eq :: "string \<Rightarrow> go_value \<Rightarrow> filter" where
  "where_Eq col v = FEq col v"

definition where_In :: "string \<Rightarrow> go_value list \<Rightarrow> filter" where
  "where_In col vs = FIn col vs"

definition AndEq :: "filter \<Rightarrow> string \<Rightarrow> go_value \<Rightarrow> filter" where
  "AndEq f col v = FAnd [f, FEq col v]"

definition AndIn :: "filter \<Rightarrow> string \<Rightarrow> go_value list \<Rightarrow> filter" where
  "AndIn f col vs = FAnd [f, FIn col vs]"

text \<open>
  Modelled from the spec: \<open>query.Build(table, builders...)\<close> of the absent package
  \<open>query\<close>. A \<open>query.Builder\<close> is either a whole Query or a filter; Build starts from
  the empty query, lets every builder contribute in order, and names the table when no
  builder did.
\<close>

datatype qbuilder = QB query | FB filter

definition merge_query :: "query \<Rightarrow> query \<Rightarrow> query" where
  "merge_query q q' =
     \<lparr>q_table = (if q_table q' = [] then q_table q else q_table q'),
      q_filter = q_filter q @ q_filter q',
      q_limit = (if q_limit q' = 0 then q_limit q else q_limit q'),
      q_offset = (if q_offset q' = 0 then q_offset q else q_offset q'),
      q_sort = q_sort q @ q_sort q',
      q_join = q_join q @ q_join q'\<rparr>"

fun apply_builder :: "query \<Rightarrow> qbuilder \<Rightarrow> query" where
  "apply_builder q (QB q') = merge_query q q'"
| "apply_builder q (FB f) = Where q f"

definition Build :: "string \<Rightarrow> qbuilder list \<Rightarrow> query" where
  "Build t bs =
     (let q = foldl apply_builder (From []) bs
      in if q_table q = [] then q\<lparr>q_table := t\<rparr> else q)"

section \<open>Changes\<close>

text \<open>
  Modelled from the spec: the package \<open>change\<close> is not part of the sources at hand.
  Section 3: a Changeset maps column names to value operations, in order, and association
  names to a list of child changesets with a \<open>cleared\<close> flag; for one column the last
  builder wins.
\<close>

datatype change_op = ChSet go_value | ChInc int | ChFragment string

datatype changes =
  Changes (ch_fields: "(string \<times> change_op) list")
          (ch_assoc: "(string \<times> changes list \<times> bool) list")

datatype cbuilder =
    CSet string go_value
  | CInc string int
  | CFragment string string
  | CMap "(string \<times> go_value) list"
  | CAssoc string "changes list" bool

fun put :: "string \<Rightarrow> 'v \<Rightarrow> (string \<times> 'v) list \<Rightarrow> (string \<times> 'v) list" where
  "put k v [] = [(k, v)]"
| "put k v ((k', v') # kvs) = (if k = k' then (k, v) # kvs else (k', v') # put k v kvs)"

fun apply_cbuilder :: "changes \<Rightarrow> cbuilder \<Rightarrow> changes" where
  "apply_cbuilder (Changes fs as) (CSet c v) = Changes (put c (ChSet v) fs) as"
| "apply_cbuilder (Changes fs as) (CInc c n) = Changes (put c (ChInc n) fs) as"
| "apply_cbuilder (Changes fs as) (CFragment c raw) = Changes (put c (ChFragment raw) fs) as"
| "apply_cbuilder (Changes fs as) (CMap kvs) =
     Changes (foldl (\<lambda>acc (c, v). put c (ChSet v) acc) fs kvs) as"
| "apply_cbuilder (Changes fs as) (CAssoc a chs cl) = Changes fs (put a (chs, cl) as)"

definition change_Build :: "cbuilder list \<Rightarrow> changes" where
  "change_Build bs = foldl apply_cbuilder (Changes [] []) bs"

definition Empty :: "changes \<Rightarrow> bool" where
  "Empty c = (ch_fields c = [] \<and> ch_assoc c = [])"

definition Get :: "changes \<Rightarrow> string \<Rightarrow> change_op option" where
  "Get c col = map_of (ch_fields c) col"

definition GetAssoc :: "changes \<Rightarrow> string \<Rightarrow> (changes list \<times> bool) option" where
  "GetAssoc c name = map_of (ch_assoc c) name"

definition SetValue :: "changes \<Rightarrow> string \<Rightarrow> go_value \<Rightarrow> changes" where
  "SetValue c col v = Changes (put col (ChSet v) (ch_fields c)) (ch_assoc c)"

section \<open>Records and their schema\<close>

text \<open>
  Modelled from the spec: the package \<open>schema\<close> is not part of the sources at hand.
  Section 3: a record type has a table name and one primary-key column. A record value
  handed to the repository is a pointer to a struct (one row) or to a slice of structs.
\<close>

type_synonym row = "(string \<times> go_value) list"

datatype gdata = Struct row | Slice "row list"

record recd =
  r_table :: string
  r_pkey :: string
  r_data :: gdata

definition field_value :: "row \<Rightarrow> string \<Rightarrow> go_value" where
  "field_value rw col = (case map_of rw col of Some v \<Rightarrow> v | None \<Rightarrow> VNil)"

definition InferTableName :: "recd \<Rightarrow> string" where
  "InferTableName rc = r_table rc"

definition InferPrimaryKey :: "recd \<Rightarrow> bool \<Rightarrow> string \<times> go_value" where
  "InferPrimaryKey rc returnValue =
     (r_pkey rc,
      if returnValue
      then (case r_data rc of Struct rw \<Rightarrow> field_value rw (r_pkey rc) | Slice _ \<Rightarrow> VNil)
      else VNil)"

section \<open>The adapter\<close>

text \<open>
  Modelled from the spec: the \<open>Adapter\<close> interface is not part of the sources at hand.
  Section 6 gives its operations. An adapter is external: what it answers may depend on
  everything it was asked before, so each operation reads the list of calls made so far.
  Adapters are told apart by a handle, since \<open>Begin\<close> hands out the adapter a
  transaction runs on. A read writes into its output; the answer carries what the output
  holds afterwards. The loggers passed along with every call are left out.
\<close>

type_synonym aid = nat

datatype event =
    EAll aid query recd
  | EInsert aid query changes
  | EInsertAll aid query "changes list"
  | EUpdate aid query changes
  | EDelete aid query
  | EBegin aid
  | ECommit aid
  | ERollback aid

record backend =
  wAll :: "event list \<Rightarrow> aid \<Rightarrow> query \<Rightarrow> recd \<Rightarrow> int \<times> go_error option \<times> gdata"
  wInsert :: "event list \<Rightarrow> aid \<Rightarrow> query \<Rightarrow> changes \<Rightarrow> go_value \<times> go_error option"
  wInsertAll :: "event list \<Rightarrow> aid \<Rightarrow> query \<Rightarrow> changes list \<Rightarrow> go_value list \<times> go_error option"
  wUpdate :: "event list \<Rightarrow> aid \<Rightarrow> query \<Rightarrow> changes \<Rightarrow> go_error option"
  wDelete :: "event list \<Rightarrow> aid \<Rightarrow> query \<Rightarrow> go_error option"
  wBegin :: "event list \<Rightarrow> aid \<Rightarrow> aid \<times> go_error option"
  wCommit :: "event list \<Rightarrow> aid \<Rightarrow> go_error option"
  wRollback :: "event list \<Rightarrow> aid \<Rightarrow> go_error option"

definition adapter_All ::
  "backend \<Rightarrow> aid \<Rightarrow> query \<Rightarrow> recd \<Rightarrow> event list \<Rightarrow> (int \<times> go_error option \<times> gdata) \<times> event list" where
  "adapter_All b a q rc log = (wAll b log a q rc, log @ [EAll a q rc])"

definition adapter_Insert ::
  "backend \<Rightarrow> aid \<Rightarrow> query \<Rightarrow> changes \<Rightarrow> event list \<Rightarrow> (go_value \<times> go_error option) \<times> event list" where
  "adapter_Insert b a q c log = (wInsert b log a q c, log @ [EInsert a q c])"

definition adapter_InsertAll ::
  "backend \<Rightarrow> aid \<Rightarrow> query \<Rightarrow> changes list \<Rightarrow> event list
     \<Rightarrow> (go_value list \<times> go_error option) \<times> event list" where
  "adapter_InsertAll b a q cs log = (wInsertAll b log a q cs, log @ [EInsertAll a q cs])"

definition adapter_Update ::
  "backend \<Rightarrow> aid \<Rightarrow> query \<Rightarrow> changes \<Rightarrow> event list \<Rightarrow> go_error option \<times> event list" where
  "adapter_Update b a q c log = (wUpdate b log a q c, log @ [EUpdate a q c])"

definition adapter_Delete ::
  "backend \<Rightarrow> aid \<Rightarrow> query \<Rightarrow> event list \<Rightarrow> go_error option \<times> event list" where
  "adapter_Delete b a q log = (wDelete b log a q, log @ [EDelete a q])"

definition adapter_Begin ::
  "backend \<Rightarrow> aid \<Rightarrow> event list \<Rightarrow> (aid \<times> go_error option) \<times> event list" where
  "adapter_Begin b a log = (wBegin b log a, log @ [EBegin a])"

definition adapter_Commit :: "backend \<Rightarrow> aid \<Rightarrow> event list \<Rightarrow> go_error option \<times> event list" where
  "adapter_Commit b a log = (wCommit b log a, log @ [ECommit a])"

definition adapter_Rollback :: "backend \<Rightarrow> aid \<Rightarrow> event list \<Rightarrow> go_error option \<times> event list" where
  "adapter_Rollback b a log = (wRollback b log a, log @ [ERollback a])"

section \<open>The repository\<close>

datatype logger = DefaultLogger | CustomLogger nat

record repo =
  adapter :: aid
  logger :: "logger list"
  inTransaction :: bool

definition New :: "aid \<Rightarrow> repo" where
  "New a = \<lparr>adapter = a, logger = [DefaultLogger], inTransaction = False\<rparr>"

text \<open>
  \<open>Repo.One\<close>: one read with limit 1. The record is the read's output, so it comes back
  holding what the adapter wrote.
\<close>

definition One ::
  "backend \<Rightarrow> repo \<Rightarrow> recd \<Rightarrow> qbuilder list \<Rightarrow> event list
     \<Rightarrow> go_error option \<times> recd \<times> event list" where
  "One b r rc queries log =
     (let table = InferTableName rc;
          q = Limit (Build table queries) 1;
          ((count, err, out), log') = adapter_All b (adapter r) q rc log;
          rc' = rc\<lparr>r_data := out\<rparr>
      in if err \<noteq> None then (transformError err, rc', log')
         else if count = 0 then (Some (LibError (Error ''no result found'' '''' NotFound)), rc', log')
         else (None, rc', log'))"

text \<open>\<open>Repo.All\<close>: one read, the adapter's error handed back as it is.\<close>

definition All ::
  "backend \<Rightarrow> repo \<Rightarrow> recd \<Rightarrow> qbuilder list \<Rightarrow> event list
     \<Rightarrow> go_error option \<times> recd \<times> event list" where
  "All b r rc queries log =
     (let table = InferTableName rc;
          q = Build table queries;
          ((count, err, out), log') = adapter_All b (adapter r) q rc log
      in (err, rc\<lparr>r_data := out\<rparr>, log'))"

text \<open>\<open>Repo.Insert\<close>; a nil record is \<open>None\<close>.\<close>

definition Insert ::
  "backend \<Rightarrow> repo \<Rightarrow> recd option \<Rightarrow> cbuilder list \<Rightarrow> event list
     \<Rightarrow> go_error option \<times> recd option \<times> event list" where
  "Insert b r record cbuilders log =
     (case record of
        None \<Rightarrow> (None, record, log)
      | Some rc \<Rightarrow>
          if length cbuilders = 0 then (None, record, log)
          else
            let table = InferTableName rc;
                primaryKey = fst (InferPrimaryKey rc False);
                queries = Build table [];
                changes = change_Build cbuilders;
                ((id, err), log1) = adapter_Insert b (adapter r) queries changes log
            in if err \<noteq> None then (transformError err, record, log1)
               else
                 let (e, rc', log2) = One b r rc [FB (where_Eq primaryKey id)] log1
                 in (transformError e, Some rc', log2))"

text \<open>\<open>Repo.Update\<close>.\<close>

definition Update ::
  "backend \<Rightarrow> repo \<Rightarrow> recd option \<Rightarrow> cbuilder list \<Rightarrow> event list
     \<Rightarrow> go_error option \<times> recd option \<times> event list" where
  "Update b r record cbuilders log =
     (case record of
        None \<Rightarrow> (None, record, log)
      | Some rc \<Rightarrow>
          if length cbuilders = 0 then (None, record, log)
          else
            let table = InferTableName rc;
                (primaryKey, primaryValue) = InferPrimaryKey rc True;
                queries = Build table [FB (where_Eq primaryKey primaryValue)];
                changes = change_Build cbuilders
            in if Empty changes then (None, record, log)
               else
                 let (err, log1) = adapter_Update b (adapter r) queries changes log
                 in if err \<noteq> None then (transformError err, record, log1)
                    else
                      let (e, rc', log2) = One b r rc [QB queries] log1
                      in (e, Some rc', log2))"

text \<open>
  \<open>Repo.Transaction\<close>. The function argument runs on the derived repository; it may
  itself talk to the adapter, so it takes the calls made so far and gives back the calls
  made once it is done, together with how it ended. \<open>err\<close> is assigned only when the
  function returns. The deferred function then asks \<open>recover()\<close>: a non-nil answer
  leads to Rollback and the type assertion; a nil answer leads to Rollback when \<open>err\<close>
  is set and to Commit otherwise.
\<close>

definition Transaction ::
  "backend \<Rightarrow> repo \<Rightarrow> (repo \<Rightarrow> event list \<Rightarrow> go_error option outcome \<times> event list) \<Rightarrow> event list
     \<Rightarrow> go_error option outcome \<times> event list" where
  "Transaction b r fn log =
     (let ((adp, err), log1) = adapter_Begin b (adapter r) log
      in if err \<noteq> None then (Return err, log1)
         else
           let txRepo = (New adp)\<lparr>inTransaction := True\<rparr>;
               (res, log2) = fn txRepo log1;
               err' = (case res of Return e \<Rightarrow> e | Panic _ \<Rightarrow> err)
           in case recover res of
                Some p \<Rightarrow>
                  let (_, log3) = adapter_Rollback b (adapter txRepo) log2
                  in (case p of
                        PanicError (LibError e) \<Rightarrow>
                          if kind e \<noteq> Unexpected then (Return (Some (LibError e)), log3)
                          else (Panic p, log3)
                      | _ \<Rightarrow> (Panic p, log3))
              | None \<Rightarrow>
                  if err' \<noteq> None then
                    let (_, log3) = adapter_Rollback b (adapter txRepo) log2
                    in (Return err', log3)
                  else
                    let (cerr, log3) = adapter_Commit b (adapter txRepo) log2
                    in (Return cerr, log3))"

section \<open>Preload\<close>

text \<open>
  The association fields that Preload fills live in the caller's record graph. A field is a
  slice of child structs, a pointer to one, or a child struct held by value; the graph's
  fields are kept in a store from addresses to field contents.
\<close>

type_synonym addr = nat

datatype slot = SliceSlot "row list" | PtrSlot "row option" | ValSlot row

type_synonym store = "addr \<Rightarrow> slot"

text \<open>The element type of an association field: the table and primary key of the child.\<close>

record ftype =
  ft_table :: string
  ft_pkey :: string

text \<open>
  A preload target as \<open>traversePreloadTarget\<close> yields it: the struct that owns the field
  (its type name and its columns) and the field itself (its address and element type).
\<close>

record preloadTarget =
  t_stype :: string
  t_schema :: row
  t_field :: addr
  t_ftype :: ftype

text \<open>The record argument as \<open>reflect.ValueOf\<close> sees it.\<close>

datatype 'g pointer = NotPointer | NilPointer | Pointer 'g

text \<open>\<open>strings.Split(field, ".")\<close>.\<close>

fun Split :: "string \<Rightarrow> string list" where
  "Split [] = [[]]"
| "Split (c # cs) =
     (if c = CHR ''.'' then [] # Split cs
      else (case Split cs of [] \<Rightarrow> [[c]] | w # ws \<Rightarrow> (c # w) # ws))"

text \<open>
  Modelled from the spec: \<open>getPreloadID\<close> and \<open>collectPreloadTarget\<close> are not part of the
  sources at hand. Section 4.4: Preload collects the distinct reference-key values needed
  and maps each returned child row back to every parent that referenced it. A target whose
  reference key is nil asks for nothing.
\<close>

definition getPreloadID :: "go_value \<Rightarrow> go_value" where
  "getPreloadID v = v"

definition collect_step ::
  "string \<Rightarrow> (go_value \<Rightarrow> addr list) \<times> go_value list \<Rightarrow> preloadTarget
     \<Rightarrow> (go_value \<Rightarrow> addr list) \<times> go_value list" where
  "collect_step refIndex acc t =
     (let refv = field_value (t_schema t) refIndex
      in if refv = VNil then acc
         else
           let k = getPreloadID refv;
               addrs = (fst acc)(k := fst acc k @ [t_field t])
           in (addrs, if length (addrs k) = 1 then snd acc @ [k] else snd acc))"

definition collectPreloadTarget ::
  "preloadTarget list \<Rightarrow> string \<Rightarrow> (go_value \<Rightarrow> addr list) \<times> go_value list" where
  "collectPreloadTarget preload refIndex = foldl (collect_step refIndex) (\<lambda>_. [], []) preload"

text \<open>The body of Preload's inner loop: one row into one address.\<close>

definition assign :: "row \<Rightarrow> store \<Rightarrow> addr \<Rightarrow> store" where
  "assign cur st a =
     (case st a of
        SliceSlot rs \<Rightarrow> st(a := SliceSlot (rs @ [cur]))
      | PtrSlot _ \<Rightarrow> st(a := PtrSlot (Some cur))
      | ValSlot _ \<Rightarrow> st(a := ValSlot cur))"

text \<open>The body of Preload's outer loop: one row into every address kept under its key.\<close>

definition map_result :: "(go_value \<Rightarrow> addr list) \<Rightarrow> string \<Rightarrow> store \<Rightarrow> row \<Rightarrow> store" where
  "map_result addrs fkIndex st cur =
     foldl (assign cur) st (addrs (getPreloadID (field_value cur fkIndex)))"

fun rows_of :: "gdata \<Rightarrow> row list" where
  "rows_of (Slice rs) = rs"
| "rows_of (Struct _) = []"

text \<open>
  \<open>Repo.Preload\<close>. The reflective helpers \<open>traversePreloadTarget\<close> and
  \<open>schema.InferAssociation\<close> are not part of the sources at hand and are taken as
  parameters: the first resolves a path to targets, the second gives, for the owning type
  and the last path element, the reference field, the child's foreign-key field and the
  column to filter on.
\<close>

definition Preload ::
  "backend \<Rightarrow> repo \<Rightarrow> ('g \<Rightarrow> string list \<Rightarrow> preloadTarget list)
     \<Rightarrow> (string \<Rightarrow> string \<Rightarrow> string \<times> string \<times> string)
     \<Rightarrow> 'g pointer \<Rightarrow> string \<Rightarrow> qbuilder list \<Rightarrow> store \<Rightarrow> event list
     \<Rightarrow> go_error option outcome \<times> store \<times> event list" where
  "Preload b r traversePreloadTarget InferAssociation record field queries st log =
     (let path = Split field
      in case record of
           NotPointer \<Rightarrow>
             (Panic (PanicOther (VStr ''grimoire: record parameter must be a pointer.'')), st, log)
         | NilPointer \<Rightarrow>
             (Panic (PanicOther (VStr ''grimoire: record parameter must be a pointer.'')), st, log)
         | Pointer g \<Rightarrow>
             (case traversePreloadTarget g path of
                [] \<Rightarrow> (Return None, st, log)
              | t0 # ts \<Rightarrow>
                  let schemaType = t_stype t0;
                      (refIndex, fkIndex, column) = InferAssociation schemaType (last path);
                      (addrs, ids) = collectPreloadTarget (t0 # ts) refIndex
                  in if length ids = 0 then (Return None, st, log)
                     else
                       let rt = t_ftype t0;
                           result = \<lparr>r_table = ft_table rt, r_pkey = ft_pkey rt, r_data = Slice []\<rparr>;
                           (err, result', log') = All b r result [FB (where_In column ids)] log
                       in if err \<noteq> None then (Return err, st, log')
                          else (Return None,
                                foldl (map_result addrs fkIndex) st (rows_of (r_data result')),
                                log')))"

text \<open>What the inner loop does to the field it reaches, by the field's kind.\<close>

definition assigned :: "row \<Rightarrow> slot \<Rightarrow> slot" where
  "assigned cur s =
     (case s of
        SliceSlot rs \<Rightarrow> SliceSlot (rs @ [cur])
      | PtrSlot _ \<Rightarrow> PtrSlot (Some cur)
      | ValSlot _ \<Rightarrow> ValSlot cur)"

text \<open>The reference key a target holds, and whether a row refers to the target at an address.\<close>

definition ref_key :: "string \<Rightarrow> preloadTarget \<Rightarrow> go_value" where
  "ref_key refIndex t = field_value (t_schema t) refIndex"

definition referenced_by :: "preloadTarget list \<Rightarrow> string \<Rightarrow> string \<Rightarrow> addr \<Rightarrow> row \<Rightarrow> bool" where
  "referenced_by targets refIndex fkIndex a cur =
     (field_value cur fkIndex \<noteq> VNil
      \<and> a \<in> set (map t_field (filter (\<lambda>t. ref_key refIndex t = field_value cur fkIndex) targets)))"

section \<open>The association orchestrator\<close>

text \<open>
  Modelled from the spec: \<open>upsertBelongsTo\<close>, \<open>upsertHasOne\<close> and \<open>upsertHasMany\<close> are
  not part of the sources at hand; only their tests are. Section 4.3 gives, for one
  association entry of a changeset, the steps each of them takes, and section 4.2 the
  exception for a parent that is itself being inserted. An associated record is loaded
  when it has a primary key, that is, when its primary-key field is not the zero value.
\<close>

definition is_zero :: "go_value \<Rightarrow> bool" where
  "is_zero v = (v = VNil \<or> v = VInt 0 \<or> v = VStr [] \<or> v = VBool False)"

definition PrimaryValue :: "recd \<Rightarrow> go_value" where
  "PrimaryValue rc = snd (InferPrimaryKey rc True)"

definition loaded :: "recd \<Rightarrow> bool" where
  "loaded rc = (\<not> is_zero (PrimaryValue rc))"

definition SetAssoc :: "changes \<Rightarrow> string \<Rightarrow> changes list \<times> bool \<Rightarrow> changes" where
  "SetAssoc c name v = Changes (ch_fields c) (put name v (ch_assoc c))"

text \<open>
  Modelled from the spec: the association descriptors of section 3 are not part of the
  sources at hand. A belongsTo or hasOne association of an owner: its name in the changeset, the
  foreign-key column (on the owner for belongsTo, on the child for hasOne), the
  reference-key column on the other side, and the associated record.
\<close>

record assoc_one =
  as_name :: string
  as_foreignKey :: string
  as_referenceKey :: string
  as_doc :: recd

text \<open>
  Modelled from the spec: a hasMany association (section 4.2), absent from the sources at
  hand: the collection of children and whether it has been loaded.
\<close>

record assoc_many =
  am_name :: string
  am_foreignKey :: string
  am_referenceKey :: string
  am_loaded :: bool
  am_coll :: recd

text \<open>
  Modelled from the spec: the insert and update the orchestrator issues for an associated
  record are not part of the sources at hand. Such a write is itself an insert or an update of a record, which
  may in turn carry nested changes (section 4.3, Recursion). The steps take the child's
  write as given: an insert hands back the error, the re-read record and the assigned id;
  an update is told the filter that selects the row.
\<close>

type_synonym insert_fn =
  "recd \<Rightarrow> changes \<Rightarrow> event list \<Rightarrow> (go_error option \<times> recd \<times> go_value) outcome \<times> event list"

type_synonym update_fn =
  "recd \<Rightarrow> changes \<Rightarrow> filter \<Rightarrow> event list \<Rightarrow> (go_error option \<times> recd) outcome \<times> event list"

text \<open>
  Modelled from the spec: the absent write of an associated record, for a record whose
  changeset carries no nested changes of its own: one adapter
  Insert (or Update) and the re-read by primary key (steps 3 and 4).
\<close>

definition insert_record :: "backend \<Rightarrow> repo \<Rightarrow> insert_fn" where
  "insert_record b r rc ch log =
     (let ((newid, err), log1) = adapter_Insert b (adapter r) (Build (InferTableName rc) []) ch log
      in if err \<noteq> None then (Return (err, rc, VNil), log1)
         else
           let (e, rc', log2) = One b r rc [FB (where_Eq (fst (InferPrimaryKey rc False)) newid)] log1
           in (Return (e, rc', newid), log2))"

definition update_record :: "backend \<Rightarrow> repo \<Rightarrow> update_fn" where
  "update_record b r rc ch f log =
     (let q = Build (InferTableName rc) [FB f];
          (err, log1) = adapter_Update b (adapter r) q ch log
      in if err \<noteq> None then (Return (err, rc), log1)
         else
           let (e, rc', log2) = One b r rc [QB q] log1
           in (Return (e, rc'), log2))"

text \<open>
  Modelled from the spec: the check of the absent \<open>upsertBelongsTo\<close> and \<open>upsertHasOne\<close>
  (section 4.3, step 2): the nested changeset sets the primary key to a value other than
  the loaded record's. The two fatal failures of the orchestrator follow.
\<close>

definition pk_conflict :: "recd \<Rightarrow> changes \<Rightarrow> bool" where
  "pk_conflict rc ch =
     (case Get ch (r_pkey rc) of
        Some (ChSet v) \<Rightarrow> v \<noteq> PrimaryValue rc
      | _ \<Rightarrow> False)"

definition inconsistent_primary_key :: panic_value where
  "inconsistent_primary_key = PanicOther (VStr ''cannot update assoc: inconsistent primary key'')"

definition assoc_not_loaded :: panic_value where
  "assoc_not_loaded = PanicOther (VStr ''association must be loaded to update'')"

text \<open>
  Modelled from the spec: \<open>upsertBelongsTo\<close>, absent from the sources at hand (section 4.3,
  belongsTo, steps 1 to 5), run before the owner's own write. It gives back the error, the owner's
  changeset (with the foreign key added after a successful insert) and the associated
  record.
\<close>

definition upsertBelongsTo ::
  "insert_fn \<Rightarrow> update_fn \<Rightarrow> assoc_one \<Rightarrow> changes \<Rightarrow> event list
     \<Rightarrow> (go_error option \<times> changes \<times> recd) outcome \<times> event list" where
  "upsertBelongsTo ins upd assoc changes log =
     (case GetAssoc changes (as_name assoc) of
        None \<Rightarrow> (Return (None, changes, as_doc assoc), log)
      | Some (chs, cleared) \<Rightarrow>
          (case chs of
             [] \<Rightarrow> (Return (None, changes, as_doc assoc), log)
           | ch # _ \<Rightarrow>
               if Empty ch then (Return (None, changes, as_doc assoc), log)
               else if loaded (as_doc assoc) then
                 if pk_conflict (as_doc assoc) ch then (Panic inconsistent_primary_key, log)
                 else
                   (case upd (as_doc assoc) ch
                           (where_Eq (r_pkey (as_doc assoc)) (PrimaryValue (as_doc assoc))) log of
                      (Panic p, log') \<Rightarrow> (Panic p, log')
                    | (Return (err, rc'), log') \<Rightarrow> (Return (err, changes, rc'), log'))
               else
                 (case ins (as_doc assoc) ch log of
                    (Panic p, log') \<Rightarrow> (Panic p, log')
                  | (Return (err, rc', newid), log') \<Rightarrow>
                      if err \<noteq> None then (Return (err, changes, rc'), log')
                      else (Return (None, SetValue changes (as_foreignKey assoc) newid, rc'), log'))))"

text \<open>
  Modelled from the spec: \<open>upsertHasOne\<close>, absent from the sources at hand (section 4.3,
  hasOne), run after the owner's write: the owner's primary key is stamped into the child
  changeset, and an update is filtered by the child's primary key and the foreign key.
\<close>

definition upsertHasOne ::
  "insert_fn \<Rightarrow> update_fn \<Rightarrow> assoc_one \<Rightarrow> changes \<Rightarrow> go_value \<Rightarrow> event list
     \<Rightarrow> (go_error option \<times> changes \<times> recd) outcome \<times> event list" where
  "upsertHasOne ins upd assoc changes ownerID log =
     (case GetAssoc changes (as_name assoc) of
        None \<Rightarrow> (Return (None, changes, as_doc assoc), log)
      | Some (chs, cleared) \<Rightarrow>
          (case chs of
             [] \<Rightarrow> (Return (None, changes, as_doc assoc), log)
           | ch # rest \<Rightarrow>
               if Empty ch then (Return (None, changes, as_doc assoc), log)
               else if loaded (as_doc assoc) \<and> pk_conflict (as_doc assoc) ch
               then (Panic inconsistent_primary_key, log)
               else
                 let ch' = SetValue ch (as_foreignKey assoc) ownerID;
                     changes' = SetAssoc changes (as_name assoc) (ch' # rest, cleared)
                 in if loaded (as_doc assoc) then
                      (case upd (as_doc assoc) ch'
                              (AndEq (where_Eq (r_pkey (as_doc assoc)) (PrimaryValue (as_doc assoc)))
                                 (as_foreignKey assoc) ownerID) log of
                         (Panic p, log') \<Rightarrow> (Panic p, log')
                       | (Return (err, rc'), log') \<Rightarrow> (Return (err, changes', rc'), log'))
                    else
                      (case ins (as_doc assoc) ch' log of
                         (Panic p, log') \<Rightarrow> (Panic p, log')
                       | (Return (err, rc', newid), log') \<Rightarrow> (Return (err, changes', rc'), log'))))"

text \<open>
  Modelled from the spec: the primary keys of the children currently held by a collection
  (section 4.3, hasMany, step 3), absent from the sources at hand.
\<close>

definition loaded_ids :: "recd \<Rightarrow> go_value list" where
  "loaded_ids coll =
     filter (\<lambda>v. \<not> is_zero v) (map (\<lambda>rw. field_value rw (r_pkey coll)) (rows_of (r_data coll)))"

text \<open>
  Modelled from the spec: \<open>upsertHasMany\<close>, absent from the sources at hand (section 4.3,
  hasMany, steps 1 to 6), run after the owner's write. The batch insert and the delete are single adapter
  calls; the ids the batch insert hands back select the rows of the re-read.
\<close>

definition upsertHasMany ::
  "backend \<Rightarrow> repo \<Rightarrow> assoc_many \<Rightarrow> changes \<Rightarrow> go_value \<Rightarrow> bool \<Rightarrow> event list
     \<Rightarrow> (go_error option \<times> changes \<times> recd) outcome \<times> event list" where
  "upsertHasMany b r assoc changes parentID insertion log =
     (case GetAssoc changes (am_name assoc) of
        None \<Rightarrow> (Return (None, changes, am_coll assoc), log)
      | Some (chs, cleared) \<Rightarrow>
          if \<not> insertion \<and> \<not> am_loaded assoc then (Panic assoc_not_loaded, log)
          else
            let coll = am_coll assoc;
                table = InferTableName coll;
                stamped = map (\<lambda>c. SetValue c (am_foreignKey assoc) parentID) chs;
                changes' = SetAssoc changes (am_name assoc) (stamped, cleared);
                ids = loaded_ids coll;
                (derr, log1) =
                  (if cleared \<and> ids \<noteq> []
                   then adapter_Delete b (adapter r)
                          (Build table [FB (AndIn (where_Eq (am_foreignKey assoc) parentID) (r_pkey coll) ids)])
                          log
                   else (None, log))
            in if derr \<noteq> None then (Return (derr, changes', coll), log1)
               else
                 let ((newids, ierr), log2) =
                       adapter_InsertAll b (adapter r) (Build table []) stamped log1
                 in if ierr \<noteq> None then (Return (ierr, changes', coll), log2)
                    else
                      let (rerr, coll', log3) = All b r coll [FB (where_In (r_pkey coll) newids)] log2
                      in (Return (rerr, changes', coll'), log3))"

section \<open>A scripted adapter for concrete runs\<close>

text \<open>
  A backend that answers every read with one row found, hands out the id 1 on insert,
  and opens transactions on adapter 1, in the manner of the test suite's mock.
\<close>

definition ok_backend :: backend where
  "ok_backend =
     \<lparr>wAll = (\<lambda>log a q rc. (1, None, r_data rc)),
      wInsert = (\<lambda>log a q c. (VInt 1, None)),
      wInsertAll = (\<lambda>log a q cs. (map (\<lambda>i. VInt (int i)) [1..<Suc (length cs)], None)),
      wUpdate = (\<lambda>log a q c. None),
      wDelete = (\<lambda>log a q. None),
      wBegin = (\<lambda>log a. (Suc a, None)),
      wCommit = (\<lambda>log a. None),
      wRollback = (\<lambda>log a. None)\<rparr>"

definition user :: recd where
  "user = \<lparr>r_table = ''users'', r_pkey = ''id'', r_data = Struct [(''id'', VInt 0), (''name'', VStr [])]\<rparr>"

text \<open>Two parents with the ids 1 and 2 and three children, for concrete runs.\<close>

definition parents :: "preloadTarget list" where
  "parents =
     [\<lparr>t_stype = ''Parent'', t_schema = [(''id'', VInt 1)], t_field = 0,
       t_ftype = \<lparr>ft_table = ''children'', ft_pkey = ''id''\<rparr>\<rparr>,
      \<lparr>t_stype = ''Parent'', t_schema = [(''id'', VInt 2)], t_field = 1,
       t_ftype = \<lparr>ft_table = ''children'', ft_pkey = ''id''\<rparr>\<rparr>]"

definition children :: "row list" where
  "children =
     [[(''id'', VInt 10), (''parent_id'', VInt 1)],
      [(''id'', VInt 11), (''parent_id'', VInt 2)],
      [(''id'', VInt 12), (''parent_id'', VInt 1)]]"

text \<open>
  A transaction that belongs to a buyer and a user that has many transactions, as in the
  test suite.
\<close>

definition buyer_assoc :: "recd \<Rightarrow> assoc_one" where
  "buyer_assoc rc = \<lparr>as_name = ''Buyer'', as_foreignKey = ''user_id'', as_referenceKey = ''id'', as_doc = rc\<rparr>"



definition transactions_assoc :: assoc_many where
  "transactions_assoc =
     \<lparr>am_name = ''Transactions'', am_foreignKey = ''user_id'', am_referenceKey = ''id'',
      am_loaded = True,
      am_coll = \<lparr>r_table = ''transactions'', r_pkey = ''id'',
                 r_data = Slice [[(''id'', VInt 1), (''item'', VStr ''item1'')],
                                 [(''id'', VInt 2), (''item'', VStr ''item2'')]]\<rparr>\<rparr>"

definition transactions_changes :: changes where
  "transactions_changes =
     Changes [] [(''Transactions'',
                  [Changes [(''item'', ChSet (VStr ''item3''))] [],
                   Changes [(''item'', ChSet (VStr ''item4''))] [],
                   Changes [(''item'', ChSet (VStr ''item5''))] []], True)]"


definition result_error :: "(go_error option \<times> changes \<times> recd) outcome \<Rightarrow> go_error option" where
  "result_error res = (case res of Return (e, c, rc) \<Rightarrow> e | Panic p \<Rightarrow> None)"

text \<open>
  The test of the deferred function's type assertion: the panic carries the library's
  error type and its kind is not Unexpected.
\<close>

fun recognized :: "panic_value \<Rightarrow> bool" where
  "recognized (PanicError (LibError e)) = (kind e \<noteq> Unexpected)"
| "recognized _ = False"

fun panic_error :: "panic_value \<Rightarrow> go_error option" where
  "panic_error (PanicError e) = Some e"
| "panic_error (PanicOther _) = None"

section \<open>Facts about Build\<close>

lemma Build_Nil: "Build t [] = From t"
  by (simp add: Build_def From_def)

lemma Build_filter: "Build t [FB f] = Where (From t) f"
  by (simp add: Build_def From_def Where_def)

lemma merge_query_From: "merge_query (From []) q = q"
  by (simp add: merge_query_def From_def)

lemma Build_query: "q_table q = t \<Longrightarrow> Build t [QB q] = q"
  by (auto simp: Build_def merge_query_From)

section \<open>Single-record read\<close>

text \<open>
  C6. \<open>One\<close>: an error from the adapter's read is handed to the caller; a read without error
  that matched zero rows gives an error of kind NotFound; a read without error that
  returned at least one row gives nil. In each case exactly one read was issued.
\<close>

theorem One_result:
  assumes "wAll b log (adapter r) (Limit (Build (InferTableName rc) queries) 1) rc = (count, err, out)"
  shows "fst (One b r rc queries log) =
           (case err of
              Some e \<Rightarrow> Some e
            | None \<Rightarrow>
                if count = 0 then Some (LibError (Error ''no result found'' '''' NotFound))
                else None)
         \<and> kind (Error ''no result found'' '''' NotFound) = NotFound
         \<and> snd (snd (One b r rc queries log)) =
             log @ [EAll (adapter r) (Limit (Build (InferTableName rc) queries) 1) rc]"
  using assms
  by (auto simp: One_def adapter_All_def transformError_def Let_def split: option.splits)

theorem One_result_witness:
  "fst (One ok_backend (New 0) user [] []) = None
   \<and> fst (One (ok_backend\<lparr>wAll := (\<lambda>log a q rc. (0, None, r_data rc))\<rparr>) (New 0) user [] []) =
       Some (LibError (Error ''no result found'' '''' NotFound))
   \<and> fst (One (ok_backend\<lparr>wAll := (\<lambda>log a q rc. (0, Some (OtherError ''closed''), r_data rc))\<rparr>)
            (New 0) user [] []) = Some (OtherError ''closed'')"
proof -
  have h1: "wAll ok_backend [] (adapter (New 0)) (Limit (Build (InferTableName user) []) 1) user
              = (1, None, r_data user)"
    by (simp add: ok_backend_def)
  have h2: "wAll (ok_backend\<lparr>wAll := (\<lambda>log a q rc. (0, None, r_data rc))\<rparr>) [] (adapter (New 0))
              (Limit (Build (InferTableName user) []) 1) user = (0, None, r_data user)"
    by simp
  have h3: "wAll (ok_backend\<lparr>wAll := (\<lambda>log a q rc. (0, Some (OtherError ''closed''), r_data rc))\<rparr>) []
              (adapter (New 0)) (Limit (Build (InferTableName user) []) 1) user
              = (0, Some (OtherError ''closed''), r_data user)"
    by simp
  show ?thesis
    using One_result [OF h1] One_result [OF h2] One_result [OF h3] by simp
qed

section \<open>Transactions\<close>

text \<open>
  C1. Once Begin has handed out the transactional adapter and the function has run on the
  derived repository: when the function returns a non-nil error, or panics with a value
  of the library's error type whose kind is not Unexpected, \<open>Transaction\<close> adds to the
  calls made so far exactly one Rollback on the transactional adapter and no Commit, and
  returns that very error.
\<close>

theorem Transaction_error_rolls_back:
  assumes "wBegin b log (adapter r) = (adp, None)"
    and "fn ((New adp)\<lparr>inTransaction := True\<rparr>) (log @ [EBegin (adapter r)]) = (res, log')"
    and "res = Return (Some e) \<or> (res = Panic p \<and> recognized p \<and> panic_error p = Some e)"
  shows "Transaction b r fn log = (Return (Some e), log' @ [ERollback adp])"
proof -
  from assms(3) show ?thesis
  proof
    assume "res = Return (Some e)"
    with assms(1,2) show ?thesis
      by (simp add: Transaction_def adapter_Begin_def adapter_Rollback_def New_def)
  next
    assume h: "res = Panic p \<and> recognized p \<and> panic_error p = Some e"
    then obtain le where p: "p = PanicError (LibError le)" and k: "kind le \<noteq> Unexpected"
      by (cases p rule: recognized.cases) auto
    from h p have e: "e = LibError le" by simp
    from assms(1,2) h p k e show ?thesis
      by (simp add: Transaction_def adapter_Begin_def adapter_Rollback_def New_def)
  qed
qed

theorem Transaction_error_rolls_back_witness:
  "Transaction ok_backend (New 0)
     (\<lambda>r log. (Return (Some (LibError (Error ''taken'' ''name'' ConstraintViolation))), log)) []
   = (Return (Some (LibError (Error ''taken'' ''name'' ConstraintViolation))), [EBegin 0, ERollback 1])
   \<and> Transaction ok_backend (New 0)
     (\<lambda>r log. (Panic (PanicError (LibError (Error ''error'' '''' NotFound))), log)) []
   = (Return (Some (LibError (Error ''error'' '''' NotFound))), [EBegin 0, ERollback 1])"
proof -
  have b: "wBegin ok_backend [] (adapter (New 0)) = (1, None)"
    by (simp add: ok_backend_def New_def)
  have f1: "(\<lambda>r log. (Return (Some (LibError (Error ''taken'' ''name'' ConstraintViolation))), log))
              ((New 1)\<lparr>inTransaction := True\<rparr>) ([] @ [EBegin (adapter (New 0))])
            = (Return (Some (LibError (Error ''taken'' ''name'' ConstraintViolation))), [EBegin 0])"
    by (simp add: New_def)
  have f2: "(\<lambda>r log. (Panic (PanicError (LibError (Error ''error'' '''' NotFound))), log))
              ((New 1)\<lparr>inTransaction := True\<rparr>) ([] @ [EBegin (adapter (New 0))])
            = (Panic (PanicError (LibError (Error ''error'' '''' NotFound))), [EBegin 0])"
    by (simp add: New_def)
  have c1: "Return (Some (LibError (Error ''taken'' ''name'' ConstraintViolation)))
              = Return (Some (LibError (Error ''taken'' ''name'' ConstraintViolation)))
            \<or> (Return (Some (LibError (Error ''taken'' ''name'' ConstraintViolation))) = Panic (PanicOther VNil)
               \<and> recognized (PanicOther VNil)
               \<and> panic_error (PanicOther VNil) = Some (LibError (Error ''taken'' ''name'' ConstraintViolation)))"
    by simp
  have c2: "Panic (PanicError (LibError (Error ''error'' '''' NotFound)))
              = Return (Some (LibError (Error ''error'' '''' NotFound)))
            \<or> (Panic (PanicError (LibError (Error ''error'' '''' NotFound)))
                 = Panic (PanicError (LibError (Error ''error'' '''' NotFound)))
               \<and> recognized (PanicError (LibError (Error ''error'' '''' NotFound)))
               \<and> panic_error (PanicError (LibError (Error ''error'' '''' NotFound)))
                   = Some (LibError (Error ''error'' '''' NotFound)))"
    by simp
  show ?thesis
    using
      Transaction_error_rolls_back
        [where fn = "\<lambda>r log. (Return (Some (LibError (Error ''taken'' ''name'' ConstraintViolation))), log)",
         OF b f1 c1]
      Transaction_error_rolls_back
        [where fn = "\<lambda>r log. (Panic (PanicError (LibError (Error ''error'' [] NotFound))), log)",
         OF b f2 c2]
    by simp
qed

text \<open>
  A panic that carries a value other than nil and is not a recognized library error is
  followed by exactly one Rollback on the transactional adapter and raised again with the
  same value.
\<close>

lemma Transaction_non_nil_panic_rethrown:
  assumes "wBegin b log (adapter r) = (adp, None)"
    and "fn ((New adp)\<lparr>inTransaction := True\<rparr>) (log @ [EBegin (adapter r)]) = (Panic p, log')"
    and "p \<noteq> PanicOther VNil"
    and "\<not> recognized p"
  shows "Transaction b r fn log = (Panic p, log' @ [ERollback adp])"
proof -
  have rc: "recover (Panic p :: go_error option outcome) = Some p"
    using assms(3) by (cases "Panic p :: go_error option outcome" rule: recover.cases) auto
  show ?thesis
  proof (cases p)
    case (PanicError ge)
    show ?thesis
    proof (cases ge)
      case (LibError le)
      with PanicError assms rc show ?thesis
        by (simp add: Transaction_def adapter_Begin_def adapter_Rollback_def New_def)
    next
      case (OtherError s)
      with PanicError assms(1,2) rc show ?thesis
        by (simp add: Transaction_def adapter_Begin_def adapter_Rollback_def New_def)
    qed
  next
    case (PanicOther v)
    with assms(1,2) rc show ?thesis
      by (simp add: Transaction_def adapter_Begin_def adapter_Rollback_def New_def)
  qed
qed

text \<open>
  C8. A function that panics with nil, a value that is not an error: \<open>recover()\<close> answers
  nil and \<open>err\<close> is still nil, so the deferred function takes the Commit branch and
  \<open>Transaction\<close> returns what Commit answered. No Rollback is issued and the panic is
  not raised again.
\<close>

theorem Transaction_nil_panic_commits:
  "Transaction ok_backend (New 0) (\<lambda>r log. (Panic (PanicOther VNil), log)) []
     = (Return None, [EBegin 0, ECommit 1])"
  by (simp add: Transaction_def adapter_Begin_def adapter_Commit_def ok_backend_def New_def)

section \<open>Insert and Update\<close>

text \<open>
  C2. \<open>Insert\<close> with a non-nil record and at least one change builder hands the built
  changes to the adapter's Insert on the record's table. When that succeeds with an
  assigned id, the very next call is a read of the same record, limited to one row and
  filtered by primary key = assigned id, and the record comes back holding what that read
  wrote into it. When the adapter's Insert fails, no read follows, the record is left as
  it was and the error is returned.
\<close>

theorem Insert_rereads_by_assigned_id:
  assumes "cbuilders \<noteq> []"
    and "wInsert b log (adapter r) (From (r_table rc)) (change_Build cbuilders) = (newid, ierr)"
    and "wAll b (log @ [EInsert (adapter r) (From (r_table rc)) (change_Build cbuilders)]) (adapter r)
           (Limit (Where (From (r_table rc)) (FEq (r_pkey rc) newid)) 1) rc = (count, rerr, out)"
  shows "Insert b r (Some rc) cbuilders log =
           (case ierr of
              Some e \<Rightarrow>
                (Some e, Some rc, log @ [EInsert (adapter r) (From (r_table rc)) (change_Build cbuilders)])
            | None \<Rightarrow>
                (case rerr of
                   Some e \<Rightarrow> Some e
                 | None \<Rightarrow>
                     if count = 0 then Some (LibError (Error ''no result found'' '''' NotFound))
                     else None,
                 Some (rc\<lparr>r_data := out\<rparr>),
                 log @ [EInsert (adapter r) (From (r_table rc)) (change_Build cbuilders),
                        EAll (adapter r) (Limit (Where (From (r_table rc)) (FEq (r_pkey rc) newid)) 1) rc]))"
proof (cases ierr)
  case None
  with assms show ?thesis
    by (auto simp: Insert_def One_def adapter_Insert_def adapter_All_def Build_Nil Build_filter
        InferTableName_def InferPrimaryKey_def where_Eq_def transformError_def Let_def
        split: option.splits)
next
  case (Some e)
  with assms(1,2) show ?thesis
    by (simp add: Insert_def adapter_Insert_def Build_Nil InferTableName_def transformError_def)
qed

theorem Insert_rereads_by_assigned_id_witness:
  "Insert (ok_backend\<lparr>wAll := (\<lambda>log a q rc. (1, None, Struct [(''id'', VInt 1), (''name'', VStr ''name'')]))\<rparr>)
     (New 0) (Some user) [CSet ''name'' (VStr ''name'')] []
   = (None,
      Some (user\<lparr>r_data := Struct [(''id'', VInt 1), (''name'', VStr ''name'')]\<rparr>),
      [EInsert 0 (From ''users'') (Changes [(''name'', ChSet (VStr ''name''))] []),
       EAll 0 (Limit (Where (From ''users'') (FEq ''id'' (VInt 1))) 1) user])
   \<and> Insert (ok_backend\<lparr>wInsert := (\<lambda>log a q c. (VInt 0, Some (LibError (NewUnexpected ''error''))))\<rparr>)
     (New 0) (Some user) [CSet ''name'' (VStr ''name'')] []
   = (Some (LibError (NewUnexpected ''error'')), Some user,
      [EInsert 0 (From ''users'') (Changes [(''name'', ChSet (VStr ''name''))] [])])"
proof -
  have n: "[CSet ''name'' (VStr ''name'')] \<noteq> []"
    by simp
  have i1: "wInsert (ok_backend\<lparr>wAll := (\<lambda>log a q rc. (1, None, Struct [(''id'', VInt 1), (''name'', VStr ''name'')]))\<rparr>)
              [] (adapter (New 0)) (From (r_table user)) (change_Build [CSet ''name'' (VStr ''name'')])
            = (VInt 1, None)"
    by (simp add: ok_backend_def)
  have a1: "wAll (ok_backend\<lparr>wAll := (\<lambda>log a q rc. (1, None, Struct [(''id'', VInt 1), (''name'', VStr ''name'')]))\<rparr>)
              ([] @ [EInsert (adapter (New 0)) (From (r_table user)) (change_Build [CSet ''name'' (VStr ''name'')])])
              (adapter (New 0)) (Limit (Where (From (r_table user)) (FEq (r_pkey user) (VInt 1))) 1) user
            = (1, None, Struct [(''id'', VInt 1), (''name'', VStr ''name'')])"
    by simp
  have i2: "wInsert (ok_backend\<lparr>wInsert := (\<lambda>log a q c. (VInt 0, Some (LibError (NewUnexpected ''error''))))\<rparr>)
              [] (adapter (New 0)) (From (r_table user)) (change_Build [CSet ''name'' (VStr ''name'')])
            = (VInt 0, Some (LibError (NewUnexpected ''error'')))"
    by simp
  have a2: "wAll (ok_backend\<lparr>wInsert := (\<lambda>log a q c. (VInt 0, Some (LibError (NewUnexpected ''error''))))\<rparr>)
              ([] @ [EInsert (adapter (New 0)) (From (r_table user)) (change_Build [CSet ''name'' (VStr ''name'')])])
              (adapter (New 0)) (Limit (Where (From (r_table user)) (FEq (r_pkey user) (VInt 0))) 1) user
            = (1, None, r_data user)"
    by (simp add: ok_backend_def)
  show ?thesis
    using Insert_rereads_by_assigned_id [OF n i1 a1] Insert_rereads_by_assigned_id [OF n i2 a2]
    by (simp add: New_def user_def change_Build_def)
qed

text \<open>
  C10. \<open>Insert\<close> and \<open>Update\<close> with a nil record or with no change builder at all, and
  \<open>Update\<close> whose built changes are empty, return nil, make no adapter call and leave the
  record as it was.
\<close>

theorem Insert_Update_nothing:
  "(record = None \<or> cbuilders = [] \<longrightarrow>
      Insert b r record cbuilders log = (None, record, log)
      \<and> Update b r record cbuilders log = (None, record, log))
   \<and> (Empty (change_Build cbuilders) \<longrightarrow> Update b r record cbuilders log = (None, record, log))"
  by (cases "record") (auto simp: Insert_def Update_def Let_def split: prod.splits)

theorem Insert_Update_nothing_witness:
  "Insert ok_backend (New 0) None [CSet ''name'' (VStr ''name'')] [] = (None, None, [])
   \<and> Update ok_backend (New 0) None [CSet ''name'' (VStr ''name'')] [] = (None, None, [])
   \<and> Insert ok_backend (New 0) (Some user) [] [] = (None, Some user, [])
   \<and> Update ok_backend (New 0) (Some user) [] [] = (None, Some user, [])
   \<and> Update ok_backend (New 0) (Some user) [CMap []] [] = (None, Some user, [])"
proof -
  have e: "Empty (change_Build [CMap []])"
    by (simp add: change_Build_def Empty_def)
  show ?thesis
    using Insert_Update_nothing [of None "[CSet ''name'' (VStr ''name'')]" ok_backend "New 0" "[]"]
      Insert_Update_nothing [of "Some user" "[]" ok_backend "New 0" "[]"]
      Insert_Update_nothing [of "Some user" "[CMap []]" ok_backend "New 0" "[]"] e
    by simp
qed

section \<open>Update and its re-read\<close>

text \<open>
  \<open>Update\<close> with changes to make hands the query for the record's table and primary key
  to the adapter's Update and, when that succeeded, the same query with limit 1 to the
  re-read.
\<close>

lemma Update_issues_update_then_reread:
  assumes "cbuilders \<noteq> []"
    and "\<not> Empty (change_Build cbuilders)"
    and "base = Where (From (r_table rc)) (FEq (r_pkey rc) (snd (InferPrimaryKey rc True)))"
    and "wUpdate b log (adapter r) base (change_Build cbuilders) = None"
  shows "snd (snd (Update b r (Some rc) cbuilders log)) =
           log @ [EUpdate (adapter r) base (change_Build cbuilders),
                  EAll (adapter r) (Limit base 1) rc]"
proof -
  obtain pv where pk: "InferPrimaryKey rc True = (r_pkey rc, pv)"
    by (simp add: InferPrimaryKey_def)
  have base: "base = Where (From (r_table rc)) (FEq (r_pkey rc) pv)"
    using assms(3) pk by simp
  have t: "q_table base = InferTableName rc"
    using base by (simp add: Where_def From_def InferTableName_def)
  have bq: "Build (InferTableName rc) [QB base] = base"
    using t by (rule Build_query)
  have bf: "Build (InferTableName rc) [FB (where_Eq (r_pkey rc) pv)] = base"
    using base by (simp add: Build_filter InferTableName_def where_Eq_def)
  show ?thesis
    using assms(1,2,4) pk bq bf
    by (simp add: Update_def One_def adapter_Update_def adapter_All_def Let_def split: prod.splits)
qed

section \<open>Preload\<close>

lemma assign_upd: "assign cur st a = st(a := assigned cur (st a))"
  by (cases "st a") (simp_all add: assign_def assigned_def)

lemma foldl_assign:
  "distinct as \<Longrightarrow> foldl (assign cur) st as a = (if a \<in> set as then assigned cur (st a) else st a)"
proof (induction as arbitrary: st)
  case Nil
  then show ?case by simp
next
  case (Cons x xs)
  then show ?case by (auto simp: assign_upd)
qed

lemma foldl_assign_other:
  "a \<notin> set as \<Longrightarrow> foldl (assign cur) st as a = st a"
  by (induction as arbitrary: st) (auto simp: assign_upd)

lemma map_result_untouched:
  "filter (\<lambda>cur. a \<in> set (addrs (field_value cur fk))) rows = [] \<Longrightarrow>
   foldl (map_result addrs fk) st rows a = st a"
proof (induction rows arbitrary: st)
  case Nil
  then show ?case by simp
next
  case (Cons rw rows)
  from Cons.prems have n: "a \<notin> set (addrs (field_value rw fk))"
    and r: "filter (\<lambda>cur. a \<in> set (addrs (field_value cur fk))) rows = []"
    by (auto split: if_splits)
  have "foldl (map_result addrs fk) (map_result addrs fk st rw) rows a = map_result addrs fk st rw a"
    using r by (rule Cons.IH)
  also have "\<dots> = st a"
    using n by (simp add: map_result_def getPreloadID_def foldl_assign_other)
  finally show ?case by simp
qed

lemma collect_fst:
  "fst (foldl (collect_step ref) acc ts) k =
     fst acc k @ (if k = VNil then [] else map t_field (filter (\<lambda>t. ref_key ref t = k) ts))"
proof (induction ts arbitrary: acc)
  case Nil
  then show ?case by simp
next
  case (Cons t ts)
  show ?case
    by (simp add: Cons.IH) (auto simp: collect_step_def getPreloadID_def ref_key_def Let_def)
qed

lemma collect_snd:
  "distinct (snd acc) \<Longrightarrow> set (snd acc) = {k. fst acc k \<noteq> []} \<Longrightarrow>
   distinct (snd (foldl (collect_step ref) acc ts))
   \<and> set (snd (foldl (collect_step ref) acc ts)) = {k. fst (foldl (collect_step ref) acc ts) k \<noteq> []}"
proof (induction ts arbitrary: acc)
  case Nil
  then show ?case by simp
next
  case (Cons t ts)
  have d: "distinct (snd (collect_step ref acc t))"
    using Cons.prems by (auto simp: collect_step_def getPreloadID_def Let_def)
  have s: "set (snd (collect_step ref acc t)) = {k. fst (collect_step ref acc t) k \<noteq> []}"
    using Cons.prems by (auto simp: collect_step_def getPreloadID_def Let_def)
  show ?case
    using Cons.IH [OF d s] by simp
qed

lemma collect_addrs:
  assumes "collectPreloadTarget ts ref = (addrs, ids)"
  shows "addrs k = (if k = VNil then [] else map t_field (filter (\<lambda>t. ref_key ref t = k) ts))"
  using collect_fst [of ref "(\<lambda>_. [], [])" ts k] assms
  by (simp add: collectPreloadTarget_def)

lemma collect_ids:
  assumes "collectPreloadTarget ts ref = (addrs, ids)"
  shows "distinct ids \<and> set ids = set (filter (\<lambda>k. k \<noteq> VNil) (map (ref_key ref) ts))"
proof -
  have "distinct ids \<and> set ids = {k. addrs k \<noteq> []}"
    using collect_snd [of "(\<lambda>_. [], [])" ref ts] assms
    by (simp add: collectPreloadTarget_def)
  moreover have "{k. addrs k \<noteq> []} = set (filter (\<lambda>k. k \<noteq> VNil) (map (ref_key ref) ts))"
    by (auto simp: collect_addrs [OF assms] filter_empty_conv)
  ultimately show ?thesis by simp
qed

lemma map_result_at:
  assumes "\<And>k. distinct (addrs k)"
  shows "foldl (map_result addrs fk) st rows a =
         foldl (\<lambda>s cur. if a \<in> set (addrs (field_value cur fk)) then assigned cur s else s) (st a) rows"
proof (induction rows arbitrary: st)
  case Nil
  then show ?case by simp
next
  case (Cons r rs)
  show ?case
    by (simp add: Cons.IH) (simp add: map_result_def getPreloadID_def foldl_assign assms)
qed

lemma foldl_assigned:
  "foldl (\<lambda>s cur. if P cur then assigned cur s else s) s0 rows =
     (case s0 of
        SliceSlot rs \<Rightarrow> SliceSlot (rs @ filter P rows)
      | PtrSlot p \<Rightarrow> PtrSlot (if filter P rows = [] then p else Some (last (filter P rows)))
      | ValSlot v \<Rightarrow> ValSlot (if filter P rows = [] then v else last (filter P rows)))"
proof (induction rows arbitrary: s0)
  case Nil
  then show ?case by (simp split: slot.splits)
next
  case (Cons r rs)
  show ?case
    by (simp add: Cons.IH) (auto simp: assigned_def split: slot.splits)
qed

text \<open>
  C7. \<open>Preload\<close> over a non-nil pointer: with no target, or with no reference-key value
  collected, it returns nil and calls no adapter. Otherwise it issues exactly one read, on
  the child table, filtered by the association column IN the collected keys, which are the
  distinct non-nil reference keys of the targets. When the read fails its error is returned
  and no field is touched. When it succeeds, the field at an address receives exactly the
  returned rows whose foreign-key value equals the reference key of the target at that
  address: a slice field gets them appended in order, a pointer or value field is set to
  the last of them, provided the fields of distinct targets are distinct places. In any
  case a field that no returned row refers to stays as it was.
\<close>

theorem Preload_batched_read:
  assumes tg: "traverse g (Split field) = targets"
    and ia: "infer (t_stype (hd targets)) (last (Split field)) = (refIndex, fkIndex, column)"
    and ct: "collectPreloadTarget targets refIndex = (addrs, ids)"
    and res: "result = \<lparr>r_table = ft_table (t_ftype (hd targets)),
                        r_pkey = ft_pkey (t_ftype (hd targets)), r_data = Slice []\<rparr>"
    and rd: "wAll b log (adapter r) (Where (From (r_table result)) (FIn column ids)) result
               = (count, err, Slice rows)"
  shows "Preload b r traverse infer (Pointer g) field queries st log =
           (if targets = [] \<or> ids = [] then (Return None, st, log)
            else
              (case err of
                 Some e \<Rightarrow>
                   (Return (Some e), st,
                    log @ [EAll (adapter r) (Where (From (r_table result)) (FIn column ids)) result])
               | None \<Rightarrow>
                   (Return None, foldl (map_result addrs fkIndex) st rows,
                    log @ [EAll (adapter r) (Where (From (r_table result)) (FIn column ids)) result])))
         \<and> distinct ids
         \<and> set ids = set (filter (\<lambda>k. k \<noteq> VNil) (map (ref_key refIndex) targets))
         \<and> (filter (referenced_by targets refIndex fkIndex a) rows = [] \<longrightarrow>
              foldl (map_result addrs fkIndex) st rows a = st a)
         \<and> (distinct (map t_field targets) \<longrightarrow>
              foldl (map_result addrs fkIndex) st rows a =
                (case st a of
                   SliceSlot rs \<Rightarrow> SliceSlot (rs @ filter (referenced_by targets refIndex fkIndex a) rows)
                 | PtrSlot p \<Rightarrow>
                     PtrSlot (if filter (referenced_by targets refIndex fkIndex a) rows = [] then p
                              else Some (last (filter (referenced_by targets refIndex fkIndex a) rows)))
                 | ValSlot v \<Rightarrow>
                     ValSlot (if filter (referenced_by targets refIndex fkIndex a) rows = [] then v
                              else last (filter (referenced_by targets refIndex fkIndex a) rows))))"
proof -
  have run: "Preload b r traverse infer (Pointer g) field queries st log =
           (if targets = [] \<or> ids = [] then (Return None, st, log)
            else
              (case err of
                 Some e \<Rightarrow>
                   (Return (Some e), st,
                    log @ [EAll (adapter r) (Where (From (r_table result)) (FIn column ids)) result])
               | None \<Rightarrow>
                   (Return None, foldl (map_result addrs fkIndex) st rows,
                    log @ [EAll (adapter r) (Where (From (r_table result)) (FIn column ids)) result])))"
  proof (cases targets)
    case Nil
    with tg show ?thesis by (simp add: Preload_def)
  next
    case (Cons t0 ts)
    have q: "Build (InferTableName result) [FB (where_In column ids)]
               = Where (From (r_table result)) (FIn column ids)"
      by (simp add: Build_filter InferTableName_def where_In_def)
    from Cons tg ia ct res rd q show ?thesis
      by (auto simp: Preload_def All_def adapter_All_def Let_def split: option.splits)
  qed
  have mem: "\<And>cur. (a \<in> set (addrs (field_value cur fkIndex))) = referenced_by targets refIndex fkIndex a cur"
    by (auto simp: collect_addrs [OF ct] referenced_by_def)
  have un: "filter (referenced_by targets refIndex fkIndex a) rows = [] \<longrightarrow>
              foldl (map_result addrs fkIndex) st rows a = st a"
    using map_result_untouched [of a addrs fkIndex rows st] by (simp only: mem) simp
  have at: "distinct (map t_field targets) \<longrightarrow>
              foldl (map_result addrs fkIndex) st rows a =
                (case st a of
                   SliceSlot rs \<Rightarrow> SliceSlot (rs @ filter (referenced_by targets refIndex fkIndex a) rows)
                 | PtrSlot p \<Rightarrow>
                     PtrSlot (if filter (referenced_by targets refIndex fkIndex a) rows = [] then p
                              else Some (last (filter (referenced_by targets refIndex fkIndex a) rows)))
                 | ValSlot v \<Rightarrow>
                     ValSlot (if filter (referenced_by targets refIndex fkIndex a) rows = [] then v
                              else last (filter (referenced_by targets refIndex fkIndex a) rows)))"
  proof
    assume ds: "distinct (map t_field targets)"
    have da: "\<And>k. distinct (addrs k)"
      using ds by (simp add: collect_addrs [OF ct] distinct_map_filter)
    show "foldl (map_result addrs fkIndex) st rows a =
                (case st a of
                   SliceSlot rs \<Rightarrow> SliceSlot (rs @ filter (referenced_by targets refIndex fkIndex a) rows)
                 | PtrSlot p \<Rightarrow>
                     PtrSlot (if filter (referenced_by targets refIndex fkIndex a) rows = [] then p
                              else Some (last (filter (referenced_by targets refIndex fkIndex a) rows)))
                 | ValSlot v \<Rightarrow>
                     ValSlot (if filter (referenced_by targets refIndex fkIndex a) rows = [] then v
                              else last (filter (referenced_by targets refIndex fkIndex a) rows)))"
      by (simp only: map_result_at [of addrs, OF da] mem foldl_assigned)
  qed
  show ?thesis
    using run collect_ids [OF ct] un at by simp
qed

theorem Preload_batched_read_witness:
  "fst (Preload (ok_backend\<lparr>wAll := (\<lambda>log a q rc. (3, None, Slice children))\<rparr>) (New 0)
          (\<lambda>g path. parents) (\<lambda>ty name. (''id'', ''parent_id'', ''parent_id''))
          (Pointer ()) ''children'' [] (\<lambda>a. SliceSlot []) []) = Return None
   \<and> snd (snd (Preload (ok_backend\<lparr>wAll := (\<lambda>log a q rc. (3, None, Slice children))\<rparr>) (New 0)
          (\<lambda>g path. parents) (\<lambda>ty name. (''id'', ''parent_id'', ''parent_id''))
          (Pointer ()) ''children'' [] (\<lambda>a. SliceSlot []) []))
       = [EAll 0 (Where (From ''children'') (FIn ''parent_id'' [VInt 1, VInt 2]))
            \<lparr>r_table = ''children'', r_pkey = ''id'', r_data = Slice []\<rparr>]
   \<and> fst (snd (Preload (ok_backend\<lparr>wAll := (\<lambda>log a q rc. (3, None, Slice children))\<rparr>) (New 0)
          (\<lambda>g path. parents) (\<lambda>ty name. (''id'', ''parent_id'', ''parent_id''))
          (Pointer ()) ''children'' [] (\<lambda>a. SliceSlot []) [])) 0
       = SliceSlot [[(''id'', VInt 10), (''parent_id'', VInt 1)], [(''id'', VInt 12), (''parent_id'', VInt 1)]]
   \<and> fst (snd (Preload (ok_backend\<lparr>wAll := (\<lambda>log a q rc. (3, None, Slice children))\<rparr>) (New 0)
          (\<lambda>g path. parents) (\<lambda>ty name. (''id'', ''parent_id'', ''parent_id''))
          (Pointer ()) ''children'' [] (\<lambda>a. SliceSlot []) [])) 1
       = SliceSlot [[(''id'', VInt 11), (''parent_id'', VInt 2)]]
   \<and> fst (snd (Preload (ok_backend\<lparr>wAll := (\<lambda>log a q rc. (3, None, Slice children))\<rparr>) (New 0)
          (\<lambda>g path. parents) (\<lambda>ty name. (''id'', ''parent_id'', ''parent_id''))
          (Pointer ()) ''children'' [] (\<lambda>a. SliceSlot []) [])) 2
       = SliceSlot []"
proof -
  have tg: "(\<lambda>g path. parents) () (Split ''children'') = parents"
    by simp
  have ia: "(\<lambda>ty name. (''id'', ''parent_id'', ''parent_id'')) (t_stype (hd parents)) (last (Split ''children''))
              = (''id'', ''parent_id'', ''parent_id'')"
    by simp
  have ct: "collectPreloadTarget parents ''id'' = ((\<lambda>_. [])(VInt 1 := [0], VInt 2 := [1]), [VInt 1, VInt 2])"
    by (simp add: collectPreloadTarget_def parents_def collect_step_def field_value_def
        getPreloadID_def Let_def)
  have res: "\<lparr>r_table = ''children'', r_pkey = ''id'', r_data = Slice []\<rparr>
               = \<lparr>r_table = ft_table (t_ftype (hd parents)), r_pkey = ft_pkey (t_ftype (hd parents)),
                  r_data = Slice []\<rparr>"
    by (simp add: parents_def)
  have rd: "wAll (ok_backend\<lparr>wAll := (\<lambda>log a q rc. (3, None, Slice children))\<rparr>) [] (adapter (New 0))
              (Where (From (r_table \<lparr>r_table = ''children'', r_pkey = ''id'', r_data = Slice []\<rparr>))
                 (FIn ''parent_id'' [VInt 1, VInt 2]))
              \<lparr>r_table = ''children'', r_pkey = ''id'', r_data = Slice []\<rparr>
            = (3, None, Slice children)"
    by simp
  have ds: "distinct (map t_field parents)"
    by (simp add: parents_def)
  note w = Preload_batched_read
             [where traverse = "\<lambda>g path. parents"
                and infer = "\<lambda>ty name. (''id'', ''parent_id'', ''parent_id'')"
                and g = "()" and queries = "[]" and st = "\<lambda>a. SliceSlot []",
              OF tg ia ct res rd]
  show ?thesis
    using w [where a = 0] w [where a = 1] w [where a = 2] ds
    by (simp add: New_def children_def parents_def referenced_by_def ref_key_def field_value_def)
qed

section \<open>Association upserts\<close>

lemma map_of_put: "map_of (put k v kvs) k = Some v"
  by (induction kvs) auto

lemma Get_SetValue: "Get (SetValue c col v) col = Some (ChSet v)"
  by (simp add: Get_def SetValue_def map_of_put)

lemma Get_not_Empty: "Get ch col = Some op \<Longrightarrow> \<not> Empty ch"
  by (auto simp: Get_def Empty_def)

text \<open>
  C5. A belongsTo upsert, and likewise a hasOne upsert, whose associated record is loaded
  and whose nested changeset sets the primary key to a value other than the loaded
  record's, panics at once: the calls made so far are handed back unchanged, so no adapter
  call has been issued, whatever the child's insert and update would have done.
\<close>

theorem primary_key_conflict_panics:
  assumes "GetAssoc changes (as_name assoc) = Some (ch # rest, cleared)"
    and "loaded (as_doc assoc)"
    and "Get ch (r_pkey (as_doc assoc)) = Some (ChSet v)"
    and "v \<noteq> PrimaryValue (as_doc assoc)"
  shows "upsertBelongsTo ins upd assoc changes log = (Panic inconsistent_primary_key, log)
         \<and> upsertHasOne ins upd assoc changes ownerID log = (Panic inconsistent_primary_key, log)"
proof -
  have ne: "\<not> Empty ch"
    using assms(3) by (rule Get_not_Empty)
  have pc: "pk_conflict (as_doc assoc) ch"
    using assms(3,4) by (simp add: pk_conflict_def)
  show ?thesis
    using assms(1,2) ne pc by (simp add: upsertBelongsTo_def upsertHasOne_def)
qed

theorem primary_key_conflict_panics_witness:
  "upsertBelongsTo (insert_record ok_backend (New 0)) (update_record ok_backend (New 0))
     (buyer_assoc (user\<lparr>r_data := Struct [(''id'', VInt 1)]\<rparr>))
     (Changes [] [(''Buyer'', [Changes [(''id'', ChSet (VInt 2)), (''name'', ChSet (VStr ''buyer1''))] []], False)])
     [] = (Panic inconsistent_primary_key, [])
   \<and> upsertHasOne (insert_record ok_backend (New 0)) (update_record ok_backend (New 0))
     (buyer_assoc (user\<lparr>r_data := Struct [(''id'', VInt 1)]\<rparr>))
     (Changes [] [(''Buyer'', [Changes [(''id'', ChSet (VInt 2)), (''name'', ChSet (VStr ''buyer1''))] []], False)])
     (VInt 7) [] = (Panic inconsistent_primary_key, [])"
proof -
  have ga: "GetAssoc (Changes [] [(''Buyer'', [Changes [(''id'', ChSet (VInt 2)), (''name'', ChSet (VStr ''buyer1''))] []], False)])
              (as_name (buyer_assoc (user\<lparr>r_data := Struct [(''id'', VInt 1)]\<rparr>)))
            = Some (Changes [(''id'', ChSet (VInt 2)), (''name'', ChSet (VStr ''buyer1''))] [] # [], False)"
    by (simp add: GetAssoc_def buyer_assoc_def)
  have ld: "loaded (as_doc (buyer_assoc (user\<lparr>r_data := Struct [(''id'', VInt 1)]\<rparr>)))"
    by (simp add: loaded_def is_zero_def PrimaryValue_def InferPrimaryKey_def buyer_assoc_def
        user_def field_value_def)
  have gt: "Get (Changes [(''id'', ChSet (VInt 2)), (''name'', ChSet (VStr ''buyer1''))] [])
              (r_pkey (as_doc (buyer_assoc (user\<lparr>r_data := Struct [(''id'', VInt 1)]\<rparr>))))
            = Some (ChSet (VInt 2))"
    by (simp add: Get_def buyer_assoc_def user_def)
  have df: "VInt 2 \<noteq> PrimaryValue (as_doc (buyer_assoc (user\<lparr>r_data := Struct [(''id'', VInt 1)]\<rparr>)))"
    by (simp add: PrimaryValue_def InferPrimaryKey_def buyer_assoc_def user_def field_value_def)
  show ?thesis
    using primary_key_conflict_panics
            [where ins = "insert_record ok_backend (New 0)" and upd = "update_record ok_backend (New 0)"
               and ownerID = "VInt 7" and log = "[]", OF ga ld gt df]
    by simp
qed

text \<open>
  C3. A hasMany upsert on a loaded association with at least one loaded child that has a
  primary key and with \<open>cleared\<close> set: the first call is one Delete on the child table
  filtered by foreign key = parent id AND primary key IN the loaded children's ids. When it
  fails, no InsertAll is issued and the delete error is returned as it is. Otherwise one
  InsertAll of all incoming child changesets follows, and after it, when it succeeded, the
  re-read by the assigned ids. Every changeset handed to InsertAll carries the parent's id
  under the foreign-key column.
\<close>

theorem hasMany_replace_deletes_first:
  assumes ga: "GetAssoc changes (am_name assoc) = Some (chs, True)"
    and ld: "am_loaded assoc"
    and ids: "loaded_ids (am_coll assoc) \<noteq> []"
    and dq: "dq = Where (From (r_table (am_coll assoc)))
                    (FAnd [FEq (am_foreignKey assoc) parentID,
                           FIn (r_pkey (am_coll assoc)) (loaded_ids (am_coll assoc))])"
    and st: "stamped = map (\<lambda>c. SetValue c (am_foreignKey assoc) parentID) chs"
    and del: "wDelete b log (adapter r) dq = derr"
    and ins: "wInsertAll b (log @ [EDelete (adapter r) dq]) (adapter r)
                (From (r_table (am_coll assoc))) stamped = (newids, ierr)"
    and rr: "wAll b (log @ [EDelete (adapter r) dq,
                            EInsertAll (adapter r) (From (r_table (am_coll assoc))) stamped])
               (adapter r)
               (Where (From (r_table (am_coll assoc))) (FIn (r_pkey (am_coll assoc)) newids))
               (am_coll assoc) = (count, rerr, out)"
  shows "upsertHasMany b r assoc changes parentID insertion log =
           (case derr of
              Some e \<Rightarrow>
                (Return (Some e, SetAssoc changes (am_name assoc) (stamped, True), am_coll assoc),
                 log @ [EDelete (adapter r) dq])
            | None \<Rightarrow>
                (case ierr of
                   Some e \<Rightarrow>
                     (Return (Some e, SetAssoc changes (am_name assoc) (stamped, True), am_coll assoc),
                      log @ [EDelete (adapter r) dq,
                             EInsertAll (adapter r) (From (r_table (am_coll assoc))) stamped])
                 | None \<Rightarrow>
                     (Return (rerr, SetAssoc changes (am_name assoc) (stamped, True),
                              (am_coll assoc)\<lparr>r_data := out\<rparr>),
                      log @ [EDelete (adapter r) dq,
                             EInsertAll (adapter r) (From (r_table (am_coll assoc))) stamped,
                             EAll (adapter r)
                               (Where (From (r_table (am_coll assoc)))
                                  (FIn (r_pkey (am_coll assoc)) newids))
                               (am_coll assoc)])))
         \<and> length stamped = length chs
         \<and> list_all (\<lambda>c. Get c (am_foreignKey assoc) = Some (ChSet parentID)) stamped"
proof -
  have bq: "Build (InferTableName (am_coll assoc))
              [FB (AndIn (where_Eq (am_foreignKey assoc) parentID) (r_pkey (am_coll assoc))
                     (loaded_ids (am_coll assoc)))] = dq"
    using dq by (simp add: Build_filter InferTableName_def AndIn_def where_Eq_def)
  have bi: "Build (InferTableName (am_coll assoc)) [] = From (r_table (am_coll assoc))"
    by (simp add: Build_Nil InferTableName_def)
  have br: "Build (InferTableName (am_coll assoc)) [FB (where_In (r_pkey (am_coll assoc)) newids)]
              = Where (From (r_table (am_coll assoc))) (FIn (r_pkey (am_coll assoc)) newids)"
    by (simp add: Build_filter InferTableName_def where_In_def)
  have run: "upsertHasMany b r assoc changes parentID insertion log =
           (case derr of
              Some e \<Rightarrow>
                (Return (Some e, SetAssoc changes (am_name assoc) (stamped, True), am_coll assoc),
                 log @ [EDelete (adapter r) dq])
            | None \<Rightarrow>
                (case ierr of
                   Some e \<Rightarrow>
                     (Return (Some e, SetAssoc changes (am_name assoc) (stamped, True), am_coll assoc),
                      log @ [EDelete (adapter r) dq,
                             EInsertAll (adapter r) (From (r_table (am_coll assoc))) stamped])
                 | None \<Rightarrow>
                     (Return (rerr, SetAssoc changes (am_name assoc) (stamped, True),
                              (am_coll assoc)\<lparr>r_data := out\<rparr>),
                      log @ [EDelete (adapter r) dq,
                             EInsertAll (adapter r) (From (r_table (am_coll assoc))) stamped,
                             EAll (adapter r)
                               (Where (From (r_table (am_coll assoc)))
                                  (FIn (r_pkey (am_coll assoc)) newids))
                               (am_coll assoc)])))"
    using ga ld ids st [symmetric] del ins rr
    by (auto simp: upsertHasMany_def Let_def bq bi br adapter_Delete_def adapter_InsertAll_def
        All_def adapter_All_def split: option.splits)
  have fk: "list_all (\<lambda>c. Get c (am_foreignKey assoc) = Some (ChSet parentID)) stamped"
    using st by (simp add: list_all_iff Get_SetValue)
  show ?thesis
    using run fk st by simp
qed

theorem hasMany_replace_deletes_first_witness:
  "snd (upsertHasMany
         (ok_backend\<lparr>wInsertAll := (\<lambda>log a q cs. ([VInt 3, VInt 4, VInt 5], None))\<rparr>)
         (New 0) transactions_assoc transactions_changes (VInt 1) False [])
   = [EDelete 0 (Where (From ''transactions'')
                   (FAnd [FEq ''user_id'' (VInt 1), FIn ''id'' [VInt 1, VInt 2]])),
      EInsertAll 0 (From ''transactions'')
        [Changes [(''item'', ChSet (VStr ''item3'')), (''user_id'', ChSet (VInt 1))] [],
         Changes [(''item'', ChSet (VStr ''item4'')), (''user_id'', ChSet (VInt 1))] [],
         Changes [(''item'', ChSet (VStr ''item5'')), (''user_id'', ChSet (VInt 1))] []],
      EAll 0 (Where (From ''transactions'') (FIn ''id'' [VInt 3, VInt 4, VInt 5]))
        (am_coll transactions_assoc)]
   \<and> snd (upsertHasMany
         (ok_backend\<lparr>wDelete := (\<lambda>log a q. Some (LibError (NewUnexpected ''delete all error'')))\<rparr>)
         (New 0) transactions_assoc transactions_changes (VInt 1) False [])
   = [EDelete 0 (Where (From ''transactions'')
                   (FAnd [FEq ''user_id'' (VInt 1), FIn ''id'' [VInt 1, VInt 2]]))]
   \<and> result_error (fst (upsertHasMany
         (ok_backend\<lparr>wDelete := (\<lambda>log a q. Some (LibError (NewUnexpected ''delete all error'')))\<rparr>)
         (New 0) transactions_assoc transactions_changes (VInt 1) False []))
   = Some (LibError (NewUnexpected ''delete all error''))"
proof -
  let ?chs = "[Changes [(''item'', ChSet (VStr ''item3''))] [],
               Changes [(''item'', ChSet (VStr ''item4''))] [],
               Changes [(''item'', ChSet (VStr ''item5''))] []]"
  let ?dq = "Where (From ''transactions'') (FAnd [FEq ''user_id'' (VInt 1), FIn ''id'' [VInt 1, VInt 2]])"
  let ?stamped = "[Changes [(''item'', ChSet (VStr ''item3'')), (''user_id'', ChSet (VInt 1))] [],
                   Changes [(''item'', ChSet (VStr ''item4'')), (''user_id'', ChSet (VInt 1))] [],
                   Changes [(''item'', ChSet (VStr ''item5'')), (''user_id'', ChSet (VInt 1))] []]"
  let ?b1 = "ok_backend\<lparr>wInsertAll := (\<lambda>log a q cs. ([VInt 3, VInt 4, VInt 5], None))\<rparr>"
  let ?b2 = "ok_backend\<lparr>wDelete := (\<lambda>log a q. Some (LibError (NewUnexpected ''delete all error'')))\<rparr>"
  have li: "loaded_ids (am_coll transactions_assoc) = [VInt 1, VInt 2]"
    by (simp add: loaded_ids_def transactions_assoc_def field_value_def is_zero_def)
  have ga: "GetAssoc transactions_changes (am_name transactions_assoc) = Some (?chs, True)"
    by (simp add: GetAssoc_def transactions_changes_def transactions_assoc_def)
  have ld: "am_loaded transactions_assoc"
    by (simp add: transactions_assoc_def)
  have ids: "loaded_ids (am_coll transactions_assoc) \<noteq> []"
    by (simp add: li)
  have dq: "?dq = Where (From (r_table (am_coll transactions_assoc)))
                    (FAnd [FEq (am_foreignKey transactions_assoc) (VInt 1),
                           FIn (r_pkey (am_coll transactions_assoc)) (loaded_ids (am_coll transactions_assoc))])"
    by (simp add: li) (simp add: transactions_assoc_def)
  have st: "?stamped = map (\<lambda>c. SetValue c (am_foreignKey transactions_assoc) (VInt 1)) ?chs"
    by (simp add: SetValue_def transactions_assoc_def)
  have d1: "wDelete ?b1 [] (adapter (New 0)) ?dq = None"
    by (simp add: ok_backend_def)
  have i1: "wInsertAll ?b1 ([] @ [EDelete (adapter (New 0)) ?dq]) (adapter (New 0))
              (From (r_table (am_coll transactions_assoc))) ?stamped = ([VInt 3, VInt 4, VInt 5], None)"
    by simp
  have r1: "wAll ?b1 ([] @ [EDelete (adapter (New 0)) ?dq,
                            EInsertAll (adapter (New 0)) (From (r_table (am_coll transactions_assoc))) ?stamped])
              (adapter (New 0))
              (Where (From (r_table (am_coll transactions_assoc)))
                 (FIn (r_pkey (am_coll transactions_assoc)) [VInt 3, VInt 4, VInt 5]))
              (am_coll transactions_assoc) = (1, None, r_data (am_coll transactions_assoc))"
    by (simp add: ok_backend_def)
  have d2: "wDelete ?b2 [] (adapter (New 0)) ?dq = Some (LibError (NewUnexpected ''delete all error''))"
    by simp
  have i2: "wInsertAll ?b2 ([] @ [EDelete (adapter (New 0)) ?dq]) (adapter (New 0))
              (From (r_table (am_coll transactions_assoc))) ?stamped = ([VInt 1, VInt 2, VInt 3], None)"
    by (simp add: ok_backend_def)
  have r2: "wAll ?b2 ([] @ [EDelete (adapter (New 0)) ?dq,
                            EInsertAll (adapter (New 0)) (From (r_table (am_coll transactions_assoc))) ?stamped])
              (adapter (New 0))
              (Where (From (r_table (am_coll transactions_assoc)))
                 (FIn (r_pkey (am_coll transactions_assoc)) [VInt 1, VInt 2, VInt 3]))
              (am_coll transactions_assoc) = (1, None, r_data (am_coll transactions_assoc))"
    by (simp add: ok_backend_def)
  show ?thesis
    using hasMany_replace_deletes_first [where insertion = False, OF ga ld ids dq st d1 i1 r1]
      hasMany_replace_deletes_first [where insertion = False, OF ga ld ids dq st d2 i2 r2]
    by (simp add: New_def result_error_def transactions_assoc_def)
qed




end
